theory Spec2Isabelle
  imports Complex_Main
begin

section \<open>JSON values and the JavaScript operations applied to them\<close>

text \<open>
  The value \<open>JSON.parse\<close> returns. A number carries the text ECMAScript's
  Number-to-String conversion gives for it (the only use the agent makes of a
  number is as a property key and in a truthiness test). An object carries
  its own properties in the order of the text; of a repeated key the last
  entry counts.
\<close>

datatype json =
    JNull
  | JBool bool
  | JNum string
  | JStr string
  | JArr "json list"
  | JObj "(string \<times> json) list"

text \<open>
  What a \<open>try\<close> block of the agent or of the backend client can catch: the
  engine's SyntaxError and TypeError, the client's
  \<open>Error(`HTTP ${status}: ${statusText}`)\<close>, and a rejected \<open>fetch\<close>.
\<close>

datatype exn = SyntaxError | TypeError | HttpError nat string | NetworkError

text \<open>
  \<open>parsed.name\<close> for the four names the agent reads (\<open>type\<close>,
  \<open>confirmationId\<close>, \<open>tool\<close>, \<open>args\<close>) and the one the client reads
  (\<open>exists\<close>): reading a property of \<open>null\<close> throws a TypeError; an object
  yields its own property or \<open>undefined\<close> (\<open>None\<close>); no prototype of a
  boolean, number, string, array or plain object has any of these names.
\<close>

fun member :: "json \<Rightarrow> string \<Rightarrow> exn + json option" where
  "member JNull k = Inl TypeError"
| "member (JObj kvs) k = Inr (map_of (rev kvs) k)"
| "member v k = Inr None"

fun join_comma :: "string list \<Rightarrow> string" where
  "join_comma [] = []"
| "join_comma [s] = s"
| "join_comma (s # t # ss) = s @ '','' @ join_comma (t # ss)"

text \<open>The elements converted from left to right: the first one that throws ends it.\<close>

fun sequence :: "(exn + 'a) list \<Rightarrow> exn + 'a list" where
  "sequence [] = Inr []"
| "sequence (Inl e # rs) = Inl e"
| "sequence (Inr x # rs) = (case sequence rs of Inl e \<Rightarrow> Inl e | Inr xs \<Rightarrow> Inr (x # xs))"

text \<open>
  ToString of a parsed value, as a computed property key needs it. An array
  joins its elements with commas, \<open>null\<close> elements as the empty string. An
  object is converted by its \<open>toString\<close> method: a parsed object inherits
  the one of \<open>Object.prototype\<close>, which yields \<open>[object Object]\<close>, unless
  it has an own property of that name; that property is parsed data and not
  callable, \<open>valueOf\<close> (own, or inherited and returning the object) gives no
  primitive either, and the conversion throws a TypeError.
\<close>

fun ToString :: "json \<Rightarrow> exn + string" where
  "ToString JNull = Inr ''null''"
| "ToString (JBool b) = Inr (if b then ''true'' else ''false'')"
| "ToString (JNum s) = Inr s"
| "ToString (JStr s) = Inr s"
| "ToString (JArr xs) =
     (case sequence (map (\<lambda>x. if x = JNull then Inr [] else ToString x) xs) of
        Inl e \<Rightarrow> Inl e
      | Inr ss \<Rightarrow> Inr (join_comma ss))"
| "ToString (JObj kvs) =
     (if map_of kvs ''toString'' = None then Inr ''[object Object]'' else Inl TypeError)"

definition ToPropertyKey :: "json option \<Rightarrow> exn + string" where
  "ToPropertyKey v = (case v of None \<Rightarrow> Inr ''undefined'' | Some j \<Rightarrow> ToString j)"

text \<open>Truthiness, for \<open>parsed.args || {}\<close>.\<close>

fun truthy :: "json \<Rightarrow> bool" where
  "truthy JNull = False"
| "truthy (JBool b) = b"
| "truthy (JNum s) = (s \<noteq> ''0'')"
| "truthy (JStr s) = (s \<noteq> [])"
| "truthy (JArr xs) = True"
| "truthy (JObj kvs) = True"

section \<open>The payment agent (src/src/agent.ts)\<close>

subsection \<open>State\<close>

text \<open>
  \<open>confirmations\<close> is created by the object literal \<open>{}\<close>: a read of a key
  that is not an own property falls through to \<open>Object.prototype\<close>. The
  table below says what such a read yields and what calling it with one
  boolean argument does: \<open>__proto__\<close> is the prototype object itself, which
  is not callable; \<open>__defineGetter__\<close> and \<open>__defineSetter__\<close> throw
  because their second argument is not a function; the other methods return
  without touching the object (\<open>toLocaleString\<close> calls \<open>toString\<close>, which
  no id of hexadecimal digits shadows).
\<close>

datatype inherited = Not_callable | Method_throws | Method_returns

definition Object_prototype :: "string \<Rightarrow> inherited option" where
  "Object_prototype key =
     (if key = ''__proto__'' then Some Not_callable
      else if key = ''__defineGetter__'' \<or> key = ''__defineSetter__'' then Some Method_throws
      else if key = ''constructor'' \<or> key = ''hasOwnProperty'' \<or> key = ''isPrototypeOf''
            \<or> key = ''propertyIsEnumerable'' \<or> key = ''toLocaleString''
            \<or> key = ''toString'' \<or> key = ''valueOf''
            \<or> key = ''__lookupGetter__'' \<or> key = ''__lookupSetter__'' then Some Method_returns
      else None)"

text \<open>A WebSocket message is a string or binary data.\<close>

datatype WSMessage = Text string | Binary "nat list"

text \<open>\<open>CallToolResult\<close>: the content items and the optional \<open>isError\<close>.\<close>

datatype content = TextContent string | OtherContent

record CallToolResult =
  content :: "content list"
  isError :: "bool option"

text \<open>
  What a \<open>catch (error)\<close> of a rejected client call receives: an \<open>Error\<close>
  with its message, or any other value.
\<close>

datatype thrown = Error string | NonError

datatype 'a settled = Fulfilled 'a | Rejected thrown

text \<open>
  The objects passed to \<open>conn.send(JSON.stringify(...))\<close>:
  \<open>{type: "error", error}\<close>, \<open>{type, tool, result, timestamp}\<close> with the type
  \<open>tool_error\<close> or \<open>tool_result\<close>, and \<open>{type: "tools_list", tools}\<close>.
\<close>

datatype reply =
    ErrorMsg string
  | ToolMsg string "json option" string nat
  | ToolsList json

text \<open>
  The object passed to \<open>this.broadcast(JSON.stringify(...))\<close>:
  \<open>{type: "payment_required", confirmationId, requirements, timestamp}\<close>.
\<close>

record broadcast =
  confirmationId :: string
  requirements :: "json list"
  timestamp :: nat

text \<open>
  An invocation of \<open>onMessage\<close> that stands at one of its two \<open>await\<close>s:
  the connection, and for \<open>callTool\<close> the tool and arguments passed.
\<close>

datatype suspended = CallToolWait nat "json option" json | ListToolsWait nat

text \<open>
  The agent: the \<open>confirmations\<close> field maps an id to a resolver, which is
  named by the index of its promise; \<open>x402Client\<close> says whether the field is
  set (\<open>onStart\<close> sets it when the wallet key is configured and the
  connection to the MCP server succeeds). The rest is the part of the runtime the agent acts on: the promises
  (\<open>None\<close> while pending), the armed timers (due time, and the
  \<open>confirmationId\<close> and resolver their callback closes over), the suspended
  invocations of \<open>onMessage\<close>, the clock \<open>Date.now()\<close> reads, and what was
  broadcast and sent (connection and message).
\<close>

record agent =
  confirmations :: "string \<rightharpoonup> nat"
  x402Client :: bool
  promises :: "bool option list"
  timers :: "(nat \<times> string \<times> nat) list"
  awaiting :: "suspended list"
  clock :: nat
  broadcasts :: "broadcast list"
  sent :: "(nat \<times> reply) list"

definition initial :: agent where
  "initial = \<lparr>confirmations = Map.empty, x402Client = False, promises = [], timers = [],
     awaiting = [], clock = 0, broadcasts = [], sent = []\<rparr>"

subsection \<open>Promises and the confirmation table\<close>

text \<open>
  Calling the resolver of promise \<open>p\<close>: a promise settles once; calling the
  resolver of a settled promise does nothing.
\<close>

definition resolve :: "nat \<Rightarrow> bool \<Rightarrow> agent \<Rightarrow> agent" where
  "resolve p res st =
     (if p < length (promises st) \<and> promises st ! p = None
      then st\<lparr>promises := (promises st)[p := Some res]\<rparr>
      else st)"

text \<open>\<open>this.confirmations[key]?.(res)\<close>\<close>

definition optional_call :: "string \<Rightarrow> bool \<Rightarrow> agent \<Rightarrow> exn + agent" where
  "optional_call key res st =
     (case confirmations st key of
        Some p \<Rightarrow> Inr (resolve p res st)
      | None \<Rightarrow>
          (case Object_prototype key of
             None \<Rightarrow> Inr st
           | Some Method_returns \<Rightarrow> Inr st
           | Some Method_throws \<Rightarrow> Inl TypeError
           | Some Not_callable \<Rightarrow> Inl TypeError))"

text \<open>\<open>delete this.confirmations[key]\<close>: removes an own property only.\<close>

definition delete_confirmation :: "string \<Rightarrow> agent \<Rightarrow> agent" where
  "delete_confirmation key st = st\<lparr>confirmations := (confirmations st)(key := None)\<rparr>"

text \<open>\<open>if (this.confirmations[key])\<close>: every value the read can yield is truthy.\<close>

definition has_confirmation :: "string \<Rightarrow> agent \<Rightarrow> bool" where
  "has_confirmation key st = (\<not> (confirmations st key = None \<and> Object_prototype key = None))"

text \<open>\<open>conn.send(JSON.stringify(r))\<close>, on a connection that takes the message.\<close>

definition send :: "nat \<Rightarrow> reply \<Rightarrow> agent \<Rightarrow> agent" where
  "send conn r st = st\<lparr>sent := sent st @ [(conn, r)]\<rparr>"

subsection \<open>onPaymentRequired\<close>

text \<open>
  \<open>uuid\<close> is what \<open>crypto.randomUUID()\<close> returns (36 characters: lower-case
  hexadecimal digits in groups of 8, 4, 4, 4 and 12, joined by hyphens), so
  the id \<open>uuid.slice(0, 8)\<close> is eight hexadecimal digits. The function broadcasts
  the request, creates the promise it returns, stores its resolver under
  the id and arms the 60000 ms timer. It returns the promise.
\<close>

definition onPaymentRequired :: "json list \<Rightarrow> string \<Rightarrow> agent \<Rightarrow> nat \<times> agent" where
  "onPaymentRequired paymentRequirements uuid st =
     (let cid = take 8 uuid;
          p = length (promises st)
      in (p, st\<lparr>broadcasts := broadcasts st @
                     [\<lparr>confirmationId = cid, requirements = paymentRequirements,
                       timestamp = clock st\<rparr>],
                 promises := promises st @ [None],
                 confirmations := (confirmations st)(cid \<mapsto> p),
                 timers := timers st @ [(clock st + 60000, cid, p)]\<rparr>))"

text \<open>The callback given to \<open>setTimeout\<close>, with the id and resolver it closes over.\<close>

definition timeout_callback :: "string \<Rightarrow> nat \<Rightarrow> agent \<Rightarrow> agent" where
  "timeout_callback cid p st =
     (if has_confirmation cid st then resolve p False (delete_confirmation cid st) else st)"

subsection \<open>onMessage\<close>

text \<open>
  The \<open>confirm\<close> and \<open>cancel\<close> cases of the switch: the id is read and
  converted to a property key (which can throw), the resolver found under
  the key is called, and the key is deleted.
\<close>

definition resolve_case :: "json \<Rightarrow> bool \<Rightarrow> agent \<Rightarrow> exn + agent" where
  "resolve_case parsed res st =
     (case member parsed ''confirmationId'' of
        Inl e \<Rightarrow> Inl e
      | Inr v \<Rightarrow>
          (case ToPropertyKey v of
             Inl e \<Rightarrow> Inl e
           | Inr key \<Rightarrow>
               (case optional_call key res st of
                  Inl e \<Rightarrow> Inl e
                | Inr st' \<Rightarrow> Inr (delete_confirmation key st'))))"

text \<open>\<open>parsed.args || {}\<close>\<close>

definition args_or_empty :: "json option \<Rightarrow> json" where
  "args_or_empty a = (case a of None \<Rightarrow> JObj [] | Some v \<Rightarrow> if truthy v then v else JObj [])"

text \<open>
  The body of the outer \<open>try\<close>, up to the first \<open>await\<close> it reaches. No case
  changes the state before it throws, so the \<open>catch\<close> runs in the state the
  message arrived in.
\<close>

definition try_body :: "(string \<Rightarrow> json option) \<Rightarrow> nat \<Rightarrow> string \<Rightarrow> agent \<Rightarrow> exn + agent" where
  "try_body JSON_parse conn message st =
     (case JSON_parse message of
        None \<Rightarrow> Inl SyntaxError
      | Some parsed \<Rightarrow>
          (case member parsed ''type'' of
             Inl e \<Rightarrow> Inl e
           | Inr ty \<Rightarrow>
               if ty = Some (JStr ''confirm'') then resolve_case parsed True st
               else if ty = Some (JStr ''cancel'') then resolve_case parsed False st
               else if ty = Some (JStr ''call_tool'') then
                 (if \<not> x402Client st
                  then Inr (send conn
                         (ErrorMsg ''Agent not initialized - missing CLIENT_WALLET_PK'') st)
                  else
                    (case member parsed ''tool'' of
                       Inl e \<Rightarrow> Inl e
                     | Inr tool \<Rightarrow>
                         (case member parsed ''args'' of
                            Inl e \<Rightarrow> Inl e
                          | Inr a \<Rightarrow>
                              Inr (st\<lparr>awaiting := awaiting st @
                                     [CallToolWait conn tool (args_or_empty a)]\<rparr>))))
               else if ty = Some (JStr ''list_tools'') then
                 (if \<not> x402Client st
                  then Inr (send conn (ErrorMsg ''Agent not initialized'') st)
                  else Inr (st\<lparr>awaiting := awaiting st @ [ListToolsWait conn]\<rparr>))
               else Inr st))"

text \<open>
  \<open>onMessage\<close>, up to the first \<open>await\<close>. \<open>JSON_parse\<close> is the runtime's
  parser: \<open>None\<close> where it throws a SyntaxError.
\<close>

definition onMessage :: "(string \<Rightarrow> json option) \<Rightarrow> nat \<Rightarrow> WSMessage \<Rightarrow> agent \<Rightarrow> agent" where
  "onMessage JSON_parse conn message st =
     (case message of
        Binary bytes \<Rightarrow> st
      | Text s \<Rightarrow>
          (case try_body JSON_parse conn s st of
             Inl e \<Rightarrow> send conn (ErrorMsg ''Failed to parse message'') st
           | Inr st' \<Rightarrow> st'))"

text \<open>\<open>result.content[0]?.text ?? ""\<close>\<close>

definition first_text :: "content list \<Rightarrow> string" where
  "first_text cs = (case cs of TextContent t # _ \<Rightarrow> t | _ \<Rightarrow> [])"

text \<open>\<open>error instanceof Error ? error.message : "Unknown error"\<close>\<close>

definition error_message :: "thrown \<Rightarrow> string" where
  "error_message e = (case e of Error m \<Rightarrow> m | NonError \<Rightarrow> ''Unknown error'')"

definition remove_nth :: "nat \<Rightarrow> 'a list \<Rightarrow> 'a list" where
  "remove_nth k xs = take k xs @ drop (Suc k) xs"

text \<open>
  The rest of \<open>onMessage\<close> once the awaited \<open>callTool\<close> of the \<open>k\<close>-th
  suspended invocation settles: one \<open>conn.send\<close>, in the inner \<open>try\<close> or in
  its \<open>catch\<close>.
\<close>

definition callTool_settled :: "nat \<Rightarrow> CallToolResult settled \<Rightarrow> agent \<Rightarrow> agent" where
  "callTool_settled k outcome st =
     (if k < length (awaiting st) then
        (case awaiting st ! k of
           CallToolWait conn tool a \<Rightarrow>
             (let st' = st\<lparr>awaiting := remove_nth k (awaiting st)\<rparr> in
              case outcome of
                Fulfilled result \<Rightarrow>
                  send conn
                    (ToolMsg (if isError result = Some True then ''tool_error'' else ''tool_result'')
                       tool (first_text (content result)) (clock st)) st'
              | Rejected e \<Rightarrow> send conn (ErrorMsg (error_message e)) st')
         | ListToolsWait conn \<Rightarrow> st)
      else st)"

text \<open>The same for an awaited \<open>listTools\<close>.\<close>

definition listTools_settled :: "nat \<Rightarrow> json settled \<Rightarrow> agent \<Rightarrow> agent" where
  "listTools_settled k outcome st =
     (if k < length (awaiting st) then
        (case awaiting st ! k of
           ListToolsWait conn \<Rightarrow>
             (let st' = st\<lparr>awaiting := remove_nth k (awaiting st)\<rparr> in
              case outcome of
                Fulfilled tools \<Rightarrow> send conn (ToolsList tools) st'
              | Rejected e \<Rightarrow> send conn (ErrorMsg (error_message e)) st')
         | CallToolWait conn tool a \<Rightarrow> st)
      else st)"

subsection \<open>The event loop\<close>

text \<open>
  Time passes to \<open>now\<close>: every timer due by then fires, in the order the
  timers were armed (all have the same delay), and is gone.
\<close>

definition is_due :: "nat \<Rightarrow> nat \<times> string \<times> nat \<Rightarrow> bool" where
  "is_due now t = (fst t \<le> now)"

definition fire :: "agent \<Rightarrow> nat \<times> string \<times> nat \<Rightarrow> agent" where
  "fire st t = timeout_callback (fst (snd t)) (snd (snd t)) st"

definition advance :: "nat \<Rightarrow> agent \<Rightarrow> agent" where
  "advance now st =
     (let t = max now (clock st) in
      foldl fire
        (st\<lparr>clock := t, timers := filter (\<lambda>x. \<not> is_due t x) (timers st)\<rparr>)
        (filter (is_due t) (timers st)))"

text \<open>
  What can happen to the agent: a message arrives; the x402 client calls
  \<open>onPaymentRequired\<close> back; an awaited client call settles; time passes.
\<close>

datatype event =
    Message nat WSMessage
  | PaymentRequired "json list" string
  | CallToolSettles nat "CallToolResult settled"
  | ListToolsSettles nat "json settled"
  | Advance nat

fun step :: "(string \<Rightarrow> json option) \<Rightarrow> agent \<Rightarrow> event \<Rightarrow> agent" where
  "step JSON_parse st (Message conn m) = onMessage JSON_parse conn m st"
| "step JSON_parse st (PaymentRequired reqs uuid) = snd (onPaymentRequired reqs uuid st)"
| "step JSON_parse st (CallToolSettles k outcome) = callTool_settled k outcome st"
| "step JSON_parse st (ListToolsSettles k outcome) = listTools_settled k outcome st"
| "step JSON_parse st (Advance now) = advance now st"

definition run :: "(string \<Rightarrow> json option) \<Rightarrow> event list \<Rightarrow> agent \<Rightarrow> agent" where
  "run JSON_parse es st = foldl (step JSON_parse) st es"

section \<open>The backend client (src/circular/client.ts) and the check_wallet tool\<close>

text \<open>
  What \<open>fetch\<close> does: it rejects, or it resolves to a response. \<open>body\<close> is
  what \<open>response.json()\<close> yields, \<open>None\<close> where it rejects.
\<close>

record Response =
  ok :: bool
  status :: nat
  statusText :: string
  body :: "json option"

datatype fetched = Unreachable | Responded Response

text \<open>\<open>v ?? d\<close>\<close>

definition nullish_coalesce :: "json option \<Rightarrow> json \<Rightarrow> json" where
  "nullish_coalesce v d = (case v of None \<Rightarrow> d | Some JNull \<Rightarrow> d | Some w \<Rightarrow> w)"

text \<open>The \<open>try\<close> block of \<open>checkWallet\<close>.\<close>

definition checkWallet_try :: "(string \<Rightarrow> fetched) \<Rightarrow> string \<Rightarrow> string \<Rightarrow> exn + json" where
  "checkWallet_try fetch rpcUrl address =
     (case fetch (rpcUrl @ ''/wallet/'' @ address @ ''/exists'') of
        Unreachable \<Rightarrow> Inl NetworkError
      | Responded response \<Rightarrow>
          if \<not> ok response then Inl (HttpError (status response) (statusText response))
          else
            (case body response of
               None \<Rightarrow> Inl SyntaxError
             | Some data \<Rightarrow>
                 (case member data ''exists'' of
                    Inl e \<Rightarrow> Inl e
                  | Inr v \<Rightarrow> Inr (nullish_coalesce v (JBool False)))))"

text \<open>\<open>checkWallet\<close>: its \<open>catch\<close> logs the error and returns \<open>false\<close>.\<close>

definition checkWallet :: "(string \<Rightarrow> fetched) \<Rightarrow> string \<Rightarrow> string \<Rightarrow> json settled" where
  "checkWallet fetch rpcUrl address =
     (case checkWallet_try fetch rpcUrl address of
        Inl error \<Rightarrow> Fulfilled (JBool False)
      | Inr v \<Rightarrow> Fulfilled v)"

text \<open>
  The handler registered for \<open>check_wallet\<close> in src/src/mcp-server.ts.
  \<open>JSON_stringify\<close> is the runtime's \<open>JSON.stringify(_, null, 2)\<close>.
\<close>

definition check_wallet :: "(json \<Rightarrow> string) \<Rightarrow> (string \<Rightarrow> fetched) \<Rightarrow> string \<Rightarrow> string \<Rightarrow> CallToolResult" where
  "check_wallet JSON_stringify fetch rpcUrl address =
     (case checkWallet fetch rpcUrl address of
        Fulfilled exists \<Rightarrow>
          \<lparr>content = [TextContent (JSON_stringify
              (JObj [(''exists'', exists), (''address'', JStr address)]))],
           isError = None\<rparr>
      | Rejected error \<Rightarrow>
          \<lparr>content = [TextContent (''Error: '' @ error_message error)], isError = Some True\<rparr>)"

section \<open>The tool registry (src/src/mcp-server.ts) and the pricing listing (src/src/index.ts)\<close>

text \<open>
  What \<open>init\<close> registers, in its order: \<open>server.tool\<close> registers a tool
  without a price, \<open>server.paidTool\<close> one with the price in USD.
\<close>

record ToolDescriptor =
  name :: string
  description :: string
  price :: "rat option"

definition tool :: "string \<Rightarrow> string \<Rightarrow> ToolDescriptor" where
  "tool n d = \<lparr>name = n, description = d, price = None\<rparr>"

definition paidTool :: "string \<Rightarrow> string \<Rightarrow> rat \<Rightarrow> ToolDescriptor" where
  "paidTool n d p = \<lparr>name = n, description = d, price = Some p\<rparr>"

definition init :: "ToolDescriptor list" where
  "init =
     [tool ''check_wallet'' ''Check if a wallet exists on Circular Protocol'',
      paidTool ''get_wallet'' ''Get detailed wallet information from Circular Protocol'' 0.001,
      paidTool ''get_balance'' ''Get wallet balance on Circular Protocol'' 0.0005,
      paidTool ''send_transaction'' ''Send a transaction on Circular Protocol'' 0.01,
      paidTool ''get_analytics'' ''Get analytics data from Circular Protocol'' 0.005,
      paidTool ''get_transaction_history'' ''Get transaction history for a wallet'' 0.002]"

text \<open>The \<open>tools\<close> object of the \<open>/pricing\<close> response, in its order.\<close>

record listing =
  listed_price :: string
  listed_description :: string

definition pricing_tools :: "(string \<times> listing) list" where
  "pricing_tools =
     [(''check_wallet'', \<lparr>listed_price = ''free'', listed_description = ''Check if a wallet exists''\<rparr>),
      (''get_wallet'', \<lparr>listed_price = ''$0.001'', listed_description = ''Get detailed wallet information''\<rparr>),
      (''get_balance'', \<lparr>listed_price = ''$0.0005'', listed_description = ''Get wallet balance''\<rparr>),
      (''get_transaction_history'', \<lparr>listed_price = ''$0.002'', listed_description = ''Get transaction history''\<rparr>),
      (''get_analytics'', \<lparr>listed_price = ''$0.005'', listed_description = ''Get analytics data''\<rparr>),
      (''send_transaction'', \<lparr>listed_price = ''$0.01'', listed_description = ''Send a transaction (state-changing)''\<rparr>)]"

section \<open>The vocabulary of the properties\<close>

subsection \<open>Resolution attempts\<close>

text \<open>
  The key and the answer a message carries when it is a \<open>confirm\<close> or
  \<open>cancel\<close> message whose \<open>confirmationId\<close> converts to a property key:
  the key is the one it converts to.
\<close>

definition resolution_of :: "(string \<Rightarrow> json option) \<Rightarrow> WSMessage \<Rightarrow> (string \<times> bool) option" where
  "resolution_of JSON_parse message =
     (case message of
        Binary bytes \<Rightarrow> None
      | Text s \<Rightarrow>
          (case JSON_parse s of
             None \<Rightarrow> None
           | Some parsed \<Rightarrow>
               (case member parsed ''type'' of
                  Inl e \<Rightarrow> None
                | Inr ty \<Rightarrow>
                    (case member parsed ''confirmationId'' of
                       Inl e \<Rightarrow> None
                     | Inr v \<Rightarrow>
                         (case ToPropertyKey v of
                            Inl e \<Rightarrow> None
                          | Inr key \<Rightarrow>
                              if ty = Some (JStr ''confirm'') then Some (key, True)
                              else if ty = Some (JStr ''cancel'') then Some (key, False)
                              else None)))))"

text \<open>
  An attempt to resolve the confirmation with id \<open>cid\<close> and promise \<open>p\<close>: a
  \<open>confirm\<close> or \<open>cancel\<close> message for \<open>cid\<close> arrives on some connection, or
  the confirmation's timer fires.
\<close>

datatype attempt = ByMessage nat WSMessage | ByTimeout

definition is_attempt :: "(string \<Rightarrow> json option) \<Rightarrow> string \<Rightarrow> attempt \<Rightarrow> bool" where
  "is_attempt JSON_parse cid a =
     (case a of
        ByMessage conn m \<Rightarrow>
          resolution_of JSON_parse m = Some (cid, True) \<or> resolution_of JSON_parse m = Some (cid, False)
      | ByTimeout \<Rightarrow> True)"

definition attempt :: "(string \<Rightarrow> json option) \<Rightarrow> string \<Rightarrow> nat \<Rightarrow> attempt \<Rightarrow> agent \<Rightarrow> agent" where
  "attempt JSON_parse cid p a st =
     (case a of
        ByMessage conn m \<Rightarrow> onMessage JSON_parse conn m st
      | ByTimeout \<Rightarrow> timeout_callback cid p st)"


text \<open>The id an event stores a new confirmation under, if it creates one.\<close>

definition draws :: "event \<Rightarrow> string option" where
  "draws e = (case e of PaymentRequired reqs uuid \<Rightarrow> Some (take 8 uuid) | _ \<Rightarrow> None)"

text \<open>
  An event that leaves the confirmation \<open>cid\<close> with timer due at \<open>due\<close>
  unresolved: it is no \<open>confirm\<close> or \<open>cancel\<close> for \<open>cid\<close>, it does not draw
  \<open>cid\<close> again, and it does not move the clock to \<open>due\<close>.
\<close>

definition leaves_pending :: "(string \<Rightarrow> json option) \<Rightarrow> string \<Rightarrow> nat \<Rightarrow> event \<Rightarrow> bool" where
  "leaves_pending JSON_parse cid due e =
     (case e of
        Message conn m \<Rightarrow>
          (case resolution_of JSON_parse m of None \<Rightarrow> True | Some kr \<Rightarrow> fst kr \<noteq> cid)
      | PaymentRequired reqs uuid \<Rightarrow> take 8 uuid \<noteq> cid
      | Advance now \<Rightarrow> now < due
      | _ \<Rightarrow> True)"

subsection \<open>Invariants\<close>

text \<open>Every resolver in the table and in a timer belongs to a promise that exists.\<close>

definition well_formed :: "agent \<Rightarrow> bool" where
  "well_formed st =
     ((\<forall>k p. confirmations st k = Some p \<longrightarrow> p < length (promises st))
      \<and> list_all (\<lambda>t. snd (snd t) < length (promises st)) (timers st))"

text \<open>
  The confirmation \<open>cid\<close> with promise \<open>p\<close> is pending: the table holds its
  resolver under \<open>cid\<close> and nowhere else, the promise is not settled, and
  among the armed timers exactly its own, due at \<open>due\<close>, closes over \<open>cid\<close>
  or over \<open>p\<close>.
\<close>

definition core :: "string \<Rightarrow> nat \<Rightarrow> agent \<Rightarrow> bool" where
  "core cid p st =
     (confirmations st cid = Some p \<and> p < length (promises st) \<and> promises st ! p = None
      \<and> (\<forall>k. k \<noteq> cid \<longrightarrow> confirmations st k \<noteq> Some p))"

definition own_timer :: "string \<Rightarrow> nat \<Rightarrow> nat \<Rightarrow> (nat \<times> string \<times> nat) list \<Rightarrow> bool" where
  "own_timer cid p due ts =
     (filter (\<lambda>t. fst (snd t) = cid) ts = [(due, cid, p)]
      \<and> list_all (\<lambda>t. snd (snd t) = p \<longrightarrow> fst (snd t) = cid) ts)"

definition pending :: "string \<Rightarrow> nat \<Rightarrow> nat \<Rightarrow> agent \<Rightarrow> bool" where
  "pending cid p due st = (core cid p st \<and> clock st < due \<and> own_timer cid p due (timers st))"

subsection \<open>Backend errors and price labels\<close>

text \<open>
  The backend call fails: no response, a response that is not \<open>ok\<close>, a body
  that is not JSON, or a body without an \<open>exists\<close> field (absent or
  \<open>null\<close>, or no field at all because the body is \<open>null\<close>).
\<close>

definition backend_error :: "fetched \<Rightarrow> bool" where
  "backend_error f =
     (case f of
        Unreachable \<Rightarrow> True
      | Responded response \<Rightarrow>
          if ok response then
            (case body response of
               None \<Rightarrow> True
             | Some data \<Rightarrow>
                 (case member data ''exists'' of
                    Inl e \<Rightarrow> True
                  | Inr v \<Rightarrow> v = None \<or> v = Some JNull))
          else True)"

text \<open>The amount a label \<open>$d.ddd\<close> of the listing denotes.\<close>

definition is_digit :: "char \<Rightarrow> bool" where
  "is_digit c = (48 \<le> (of_char c :: nat) \<and> (of_char c :: nat) \<le> 57)"

definition decimal :: "string \<Rightarrow> nat" where
  "decimal ds = foldl (\<lambda>n c. 10 * n + (of_char c - 48)) 0 ds"

definition usd :: "string \<Rightarrow> rat option" where
  "usd s =
     (case s of
        [] \<Rightarrow> None
      | c # r \<Rightarrow>
          (let whole = takeWhile (\<lambda>x. x \<noteq> CHR ''.'') r;
               frac = drop 1 (dropWhile (\<lambda>x. x \<noteq> CHR ''.'') r)
           in if c = CHR ''$'' \<and> whole \<noteq> [] \<and> list_all is_digit (whole @ frac)
              then Some (of_nat (decimal whole) + of_nat (decimal frac) / 10 ^ length frac)
              else None))"

definition price_label :: "string \<Rightarrow> string option" where
  "price_label n = map_option listed_price (map_of pricing_tools n)"

text \<open>
  The listing agrees with a descriptor: the tool is listed, as \<open>free\<close> when
  it has no price and otherwise with a label that denotes its price.
\<close>

definition agrees :: "ToolDescriptor \<Rightarrow> bool" where
  "agrees d =
     (case price_label (name d) of
        None \<Rightarrow> False
      | Some l \<Rightarrow> (case price d of None \<Rightarrow> l = ''free'' | Some p \<Rightarrow> l \<noteq> ''free'' \<and> usd l = Some p))"

subsection \<open>Examples\<close>

text \<open>
  \<open>JSON.parse\<close> on the message texts of the examples; it throws on the
  last one used there, \<open>not json\<close>, which stands for every text outside
  the table.
\<close>

definition example_parse :: "string \<Rightarrow> json option" where
  "example_parse s =
     (if s = ''{\"type\":\"confirm\",\"confirmationId\":\"deadbeef\"}''
      then Some (JObj [(''type'', JStr ''confirm''), (''confirmationId'', JStr ''deadbeef'')])
      else if s = ''{\"type\":\"cancel\",\"confirmationId\":\"deadbeef\"}''
      then Some (JObj [(''type'', JStr ''cancel''), (''confirmationId'', JStr ''deadbeef'')])
      else if s = ''{\"type\":\"confirm\",\"confirmationId\":\"__proto__\"}''
      then Some (JObj [(''type'', JStr ''confirm''), (''confirmationId'', JStr ''__proto__'')])
      else if s = ''{\"type\":\"confirm\",\"confirmationId\":{\"toString\":1}}''
      then Some (JObj [(''type'', JStr ''confirm''),
                       (''confirmationId'', JObj [(''toString'', JNum ''1'')])])
      else if s = ''{\"type\":\"call_tool\",\"tool\":\"get_balance\",\"args\":{\"address\":\"0xabc\"}}''
      then Some (JObj [(''type'', JStr ''call_tool''), (''tool'', JStr ''get_balance''),
                       (''args'', JObj [(''address'', JStr ''0xabc'')])])
      else if s = ''{\"type\":\"list_tools\"}''
      then Some (JObj [(''type'', JStr ''list_tools'')])
      else None)"

text \<open>
  Three results of \<open>crypto.randomUUID()\<close>: the first two differ, and agree
  on their first eight characters.
\<close>

definition uuid_a :: string where
  "uuid_a = ''deadbeef-0000-4000-8000-000000000001''"

definition uuid_b :: string where
  "uuid_b = ''deadbeef-0000-4000-8000-000000000002''"

definition uuid_c :: string where
  "uuid_c = ''0badcafe-0000-4000-8000-000000000003''"

text \<open>
  An agent whose client is set; the same with one pending confirmation; and
  with a second one whose id collides with the first.
\<close>

definition ready :: agent where
  "ready = initial\<lparr>x402Client := True\<rparr>"

definition one_pending :: agent where
  "one_pending = snd (onPaymentRequired [] uuid_a ready)"

definition collision :: agent where
  "collision = snd (onPaymentRequired [] uuid_b one_pending)"

text \<open>
  A backend that answers 404 to everything, and \<open>JSON.stringify(_, null, 2)\<close>
  on the one object the example passes to it.
\<close>

definition example_stringify :: "json \<Rightarrow> string" where
  "example_stringify j =
     (if j = JObj [(''exists'', JBool False), (''address'', JStr ''0xabc'')]
      then ''{'' @ [CHR 0x0A] @ ''  \"exists\": false,'' @ [CHR 0x0A]
           @ ''  \"address\": \"0xabc\"'' @ [CHR 0x0A] @ ''}''
      else [])"

definition not_found :: "string \<Rightarrow> fetched" where
  "not_found url = Responded \<lparr>ok = False, status = 404, statusText = ''Not Found'', body = None\<rparr>"


section \<open>Facts about the operations\<close>

lemma optional_call_absent:
  "confirmations st key = None \<Longrightarrow> Object_prototype key = None \<Longrightarrow> optional_call key res st = Inr st"
  by (simp add: optional_call_def)

lemma delete_absent:
  "confirmations st key = None \<Longrightarrow> delete_confirmation key st = st"
  by (simp add: delete_confirmation_def fun_upd_idem)

lemma resolution_ofE:
  assumes "resolution_of P m = Some (key, res)"
  obtains s parsed v where "m = Text s" and "P s = Some parsed"
    and "member parsed ''type'' = Inr (Some (JStr (if res then ''confirm'' else ''cancel'')))"
    and "member parsed ''confirmationId'' = Inr v" and "ToPropertyKey v = Inr key"
proof (cases m)
  case (Binary bytes)
  with assms show ?thesis by (simp add: resolution_of_def)
next
  case (Text s)
  show ?thesis
  proof (cases "P s")
    case None
    with assms Text show ?thesis by (simp add: resolution_of_def)
  next
    case (Some parsed)
    show ?thesis
    proof (cases "member parsed ''type''")
      case (Inl e)
      with assms Text Some show ?thesis by (simp add: resolution_of_def)
    next
      case (Inr ty)
      show ?thesis
      proof (cases "member parsed ''confirmationId''")
        case (Inl e)
        with assms Text Some Inr show ?thesis by (simp add: resolution_of_def)
      next
        case v: (Inr v)
        show ?thesis
        proof (cases "ToPropertyKey v")
          case (Inl e)
          with assms Text Some Inr v show ?thesis by (simp add: resolution_of_def)
        next
          case k: (Inr k)
          from assms Text Some Inr v k
          have "(if ty = Some (JStr ''confirm'') then Some (k, True)
                 else if ty = Some (JStr ''cancel'') then Some (k, False)
                 else None) = Some (key, res)"
            by (simp add: resolution_of_def)
          then have "key = k"
            and "ty = Some (JStr (if res then ''confirm'' else ''cancel''))"
            by (simp_all split: if_splits)
          with that Text Some Inr v k show ?thesis by simp
        qed
      qed
    qed
  qed
qed

lemma onMessage_resolution:
  assumes "resolution_of P m = Some (key, res)"
  shows "onMessage P conn m st =
     (case optional_call key res st of
        Inl e \<Rightarrow> send conn (ErrorMsg ''Failed to parse message'') st
      | Inr st' \<Rightarrow> delete_confirmation key st')"
proof -
  from assms obtain s parsed v where m: "m = Text s" and p: "P s = Some parsed"
    and t: "member parsed ''type'' = Inr (Some (JStr (if res then ''confirm'' else ''cancel'')))"
    and c: "member parsed ''confirmationId'' = Inr v" and k: "ToPropertyKey v = Inr key"
    by (rule resolution_ofE)
  have "try_body P conn s st = resolve_case parsed res st"
    using p t by (cases res) (simp_all add: try_body_def)
  moreover have "resolve_case parsed res st =
     (case optional_call key res st of Inl e \<Rightarrow> Inl e
      | Inr st' \<Rightarrow> Inr (delete_confirmation key st'))"
    using c k by (simp add: resolve_case_def)
  ultimately show ?thesis
    using m by (simp add: onMessage_def split: sum.splits)
qed

lemma onMessage_other_cases:
  assumes "resolution_of P m = None"
  shows "onMessage P conn m st = st
       \<or> (\<exists>r. onMessage P conn m st = send conn r st)
       \<or> (\<exists>w. onMessage P conn m st = st\<lparr>awaiting := awaiting st @ [w]\<rparr>)"
proof (cases m)
  case (Binary bytes)
  then show ?thesis by (simp add: onMessage_def)
next
  case (Text s)
  show ?thesis
  proof (cases "try_body P conn s st")
    case (Inl e)
    with Text show ?thesis by (auto simp: onMessage_def)
  next
    case (Inr st')
    then have om: "onMessage P conn m st = st'"
      using Text by (simp add: onMessage_def)
    from Inr obtain parsed where p: "P s = Some parsed"
      by (cases "P s") (simp_all add: try_body_def)
    from Inr p obtain ty where t: "member parsed ''type'' = Inr ty"
      by (cases "member parsed ''type''") (simp_all add: try_body_def)
    have mem: "\<exists>v. member parsed k = Inr v" for k
      using t by (cases parsed) simp_all
    from mem obtain v where c: "member parsed ''confirmationId'' = Inr v" by blast
    from mem obtain tname where tl: "member parsed ''tool'' = Inr tname" by blast
    from mem obtain a where ar: "member parsed ''args'' = Inr a" by blast
    have thrown: "resolve_case parsed res st = Inl e" if "ToPropertyKey v = Inl e" for res e
      using c that by (simp add: resolve_case_def)
    have n1: "ty \<noteq> Some (JStr ''confirm'')"
    proof
      assume ty: "ty = Some (JStr ''confirm'')"
      with Inr p t have "resolve_case parsed True st = Inr st'" by (simp add: try_body_def)
      with thrown [of _ True] obtain key where "ToPropertyKey v = Inr key"
        by (cases "ToPropertyKey v") auto
      with assms Text p t c ty show False by (simp add: resolution_of_def)
    qed
    have n2: "ty \<noteq> Some (JStr ''cancel'')"
    proof
      assume ty: "ty = Some (JStr ''cancel'')"
      with Inr p t have "resolve_case parsed False st = Inr st'" by (simp add: try_body_def)
      with thrown [of _ False] obtain key where "ToPropertyKey v = Inr key"
        by (cases "ToPropertyKey v") auto
      with assms Text p t c ty show False by (simp add: resolution_of_def)
    qed
    from Inr p t n1 n2 tl ar
    have "st' = send conn (ErrorMsg ''Agent not initialized - missing CLIENT_WALLET_PK'') st
        \<or> st' = st\<lparr>awaiting := awaiting st @ [CallToolWait conn tname (args_or_empty a)]\<rparr>
        \<or> st' = send conn (ErrorMsg ''Agent not initialized'') st
        \<or> st' = st\<lparr>awaiting := awaiting st @ [ListToolsWait conn]\<rparr>
        \<or> st' = st"
      by (simp add: try_body_def split: if_splits)
    with om show ?thesis by metis
  qed
qed

lemma onMessage_other:
  assumes "resolution_of P m = None"
  shows "confirmations (onMessage P conn m st) = confirmations st"
    and "promises (onMessage P conn m st) = promises st"
    and "timers (onMessage P conn m st) = timers st"
    and "clock (onMessage P conn m st) = clock st"
  using onMessage_other_cases [OF assms, of conn st]
  by (auto simp: send_def)

lemma resolve_fields [simp]:
  "confirmations (resolve p res st) = confirmations st"
  "timers (resolve p res st) = timers st"
  "clock (resolve p res st) = clock st"
  "awaiting (resolve p res st) = awaiting st"
  "sent (resolve p res st) = sent st"
  "broadcasts (resolve p res st) = broadcasts st"
  "x402Client (resolve p res st) = x402Client st"
  "length (promises (resolve p res st)) = length (promises st)"
  by (simp_all add: resolve_def)

lemma delete_fields [simp]:
  "confirmations (delete_confirmation key st) = (confirmations st)(key := None)"
  "promises (delete_confirmation key st) = promises st"
  "timers (delete_confirmation key st) = timers st"
  "clock (delete_confirmation key st) = clock st"
  "awaiting (delete_confirmation key st) = awaiting st"
  "sent (delete_confirmation key st) = sent st"
  by (simp_all add: delete_confirmation_def)

lemma send_fields [simp]:
  "confirmations (send conn r st) = confirmations st"
  "promises (send conn r st) = promises st"
  "timers (send conn r st) = timers st"
  "clock (send conn r st) = clock st"
  "awaiting (send conn r st) = awaiting st"
  "sent (send conn r st) = sent st @ [(conn, r)]"
  by (simp_all add: send_def)

lemma optional_call_fields:
  assumes "optional_call key res st = Inr st'"
  shows "confirmations st' = confirmations st" "timers st' = timers st" "clock st' = clock st"
  using assms by (auto simp: optional_call_def split: option.splits inherited.splits)

text \<open>No id cut from a UUID names an inherited property.\<close>

lemma generated_id_not_inherited:
  assumes "list_all (\<lambda>c. c \<in> set ''0123456789abcdef-'') cid"
  shows "Object_prototype cid = None"
proof -
  have "cid \<noteq> k" if "\<not> list_all (\<lambda>c. c \<in> set ''0123456789abcdef-'') k" for k
    using assms that by auto
  then show ?thesis
    by (simp add: Object_prototype_def)
qed

lemma deadbeef_not_inherited: "Object_prototype ''deadbeef'' = None"
  by (simp add: Object_prototype_def)

text \<open>The examples, evaluated.\<close>

lemma example_states:
  "one_pending = \<lparr>confirmations = [''deadbeef'' \<mapsto> 0], x402Client = True, promises = [None],
      timers = [(60000, ''deadbeef'', 0)], awaiting = [], clock = 0,
      broadcasts = [\<lparr>confirmationId = ''deadbeef'', requirements = [], timestamp = 0\<rparr>],
      sent = []\<rparr>"
  "collision = \<lparr>confirmations = [''deadbeef'' \<mapsto> 1], x402Client = True, promises = [None, None],
      timers = [(60000, ''deadbeef'', 0), (60000, ''deadbeef'', 1)], awaiting = [], clock = 0,
      broadcasts = [\<lparr>confirmationId = ''deadbeef'', requirements = [], timestamp = 0\<rparr>,
                    \<lparr>confirmationId = ''deadbeef'', requirements = [], timestamp = 0\<rparr>],
      sent = []\<rparr>"
  by (simp_all add: collision_def one_pending_def ready_def initial_def onPaymentRequired_def Let_def
      uuid_a_def uuid_b_def)

lemma example_resolutions:
  "resolution_of example_parse (Text ''{\"type\":\"confirm\",\"confirmationId\":\"deadbeef\"}'')
     = Some (''deadbeef'', True)"
  "resolution_of example_parse (Text ''{\"type\":\"cancel\",\"confirmationId\":\"deadbeef\"}'')
     = Some (''deadbeef'', False)"
  "resolution_of example_parse (Text ''{\"type\":\"confirm\",\"confirmationId\":\"__proto__\"}'')
     = Some (''__proto__'', True)"
  "resolution_of example_parse (Text ''{\"type\":\"list_tools\"}'') = None"
  "resolution_of example_parse (Text ''not json'') = None"
  by (simp_all add: resolution_of_def example_parse_def ToPropertyKey_def)


section \<open>Messages that are not strings\<close>

text \<open>
  C10: a message that is not a string makes \<open>onMessage\<close> return at once: the
  agent is left exactly as it was, so nothing is sent (no "Failed to parse
  message" either) and no pending confirmation changes.
\<close>

theorem binary_message_ignored:
  "onMessage JSON_parse conn (Binary bytes) st = st"
  by (simp add: onMessage_def)

section \<open>Messages that do not parse\<close>

text \<open>
  No operation reads what was sent: an operation run with a different log
  does the same and appends the same replies.
\<close>

lemma resolve_sent:
  "resolve p res (st\<lparr>sent := xs\<rparr>) = (resolve p res st)\<lparr>sent := xs\<rparr>"
  by (simp add: resolve_def)

lemma delete_sent:
  "delete_confirmation k (st\<lparr>sent := xs\<rparr>) = (delete_confirmation k st)\<lparr>sent := xs\<rparr>"
  by (simp add: delete_confirmation_def)

lemma optional_call_sent:
  "optional_call k res (st\<lparr>sent := xs\<rparr>) = map_sum id (\<lambda>s. s\<lparr>sent := xs\<rparr>) (optional_call k res st)"
  by (simp add: optional_call_def resolve_sent split: option.splits inherited.splits)

lemma resolve_case_sent:
  "resolve_case parsed res (st\<lparr>sent := xs\<rparr>) = map_sum id (\<lambda>s. s\<lparr>sent := xs\<rparr>) (resolve_case parsed res st)"
  by (simp add: resolve_case_def optional_call_sent delete_sent split: sum.splits)

lemma resolve_case_sent_same:
  "resolve_case parsed res st = Inr st' \<Longrightarrow> sent st' = sent st"
  by (auto simp: resolve_case_def optional_call_def split: sum.splits option.splits inherited.splits)

lemma try_body_sent:
  "try_body P conn s (st\<lparr>sent := xs\<rparr>) =
     map_sum id (\<lambda>s'. s'\<lparr>sent := xs @ drop (length (sent st)) (sent s')\<rparr>) (try_body P conn s st)"
proof (cases "P s")
  case None
  then show ?thesis by (simp add: try_body_def)
next
  case (Some parsed)
  show ?thesis
  proof (cases "member parsed ''type''")
    case (Inl e)
    with Some show ?thesis by (simp add: try_body_def)
  next
    case (Inr ty)
    have rc: "resolve_case parsed res (st\<lparr>sent := xs\<rparr>) =
        map_sum id (\<lambda>s'. s'\<lparr>sent := xs @ drop (length (sent st)) (sent s')\<rparr>)
          (resolve_case parsed res st)" for res
      by (cases "resolve_case parsed res st")
        (simp_all add: resolve_case_sent resolve_case_sent_same)
    show ?thesis
      using Some Inr rc
      by (simp add: try_body_def send_def split: sum.splits)
  qed
qed

lemma onMessage_sent:
  "onMessage P conn m (st\<lparr>sent := xs\<rparr>) =
     (onMessage P conn m st)\<lparr>sent := xs @ drop (length (sent st)) (sent (onMessage P conn m st))\<rparr>"
proof (cases m)
  case (Binary bytes)
  then show ?thesis by (simp add: onMessage_def)
next
  case (Text s)
  then show ?thesis
    by (cases "try_body P conn s st") (simp_all add: onMessage_def try_body_sent send_def)
qed

lemma onPaymentRequired_sent:
  "snd (onPaymentRequired reqs uuid (st\<lparr>sent := xs\<rparr>)) =
     (snd (onPaymentRequired reqs uuid st))\<lparr>sent := xs @ drop (length (sent st)) (sent (snd (onPaymentRequired reqs uuid st)))\<rparr>"
  by (simp add: onPaymentRequired_def Let_def)

lemma callTool_settled_sent:
  "callTool_settled k outcome (st\<lparr>sent := xs\<rparr>) =
     (callTool_settled k outcome st)\<lparr>sent := xs @ drop (length (sent st)) (sent (callTool_settled k outcome st))\<rparr>"
  by (simp add: callTool_settled_def send_def Let_def split: suspended.splits settled.splits)

lemma listTools_settled_sent:
  "listTools_settled k outcome (st\<lparr>sent := xs\<rparr>) =
     (listTools_settled k outcome st)\<lparr>sent := xs @ drop (length (sent st)) (sent (listTools_settled k outcome st))\<rparr>"
  by (simp add: listTools_settled_def send_def Let_def split: suspended.splits settled.splits)

lemma fire_sent:
  "fire (st\<lparr>sent := xs\<rparr>) t = (fire st t)\<lparr>sent := xs\<rparr>"
  by (simp add: fire_def timeout_callback_def has_confirmation_def resolve_sent delete_sent)

lemma foldl_fire_sent:
  "foldl fire (st\<lparr>sent := xs\<rparr>) ts = (foldl fire st ts)\<lparr>sent := xs\<rparr>"
  by (induction ts arbitrary: st) (simp_all add: fire_sent)

lemma sent_fire [simp]: "sent (fire st t) = sent st"
  by (simp add: fire_def timeout_callback_def)

lemma sent_foldl_fire [simp]: "sent (foldl fire st ts) = sent st"
  by (induction ts arbitrary: st) simp_all

lemma sent_advance [simp]: "sent (advance now st) = sent st"
  by (simp add: advance_def Let_def)

lemma advance_sent:
  "advance now (st\<lparr>sent := xs\<rparr>) =
     (advance now st)\<lparr>sent := xs @ drop (length (sent st)) (sent (advance now st))\<rparr>"
proof -
  let ?t = "max now (clock st)"
  let ?b = "st\<lparr>clock := ?t, timers := filter (\<lambda>x. \<not> is_due ?t x) (timers st)\<rparr>"
  have eq: "(st\<lparr>sent := xs\<rparr>)\<lparr>clock := c, timers := ts\<rparr> =
      (st\<lparr>clock := c, timers := ts\<rparr>)\<lparr>sent := xs\<rparr>" for c ts
    by (cases st) simp
  have "advance now (st\<lparr>sent := xs\<rparr>) =
      foldl fire (?b\<lparr>sent := xs\<rparr>) (filter (is_due ?t) (timers st))"
    unfolding advance_def Let_def eq by simp
  also have "\<dots> = (foldl fire ?b (filter (is_due ?t) (timers st)))\<lparr>sent := xs\<rparr>"
    by (rule foldl_fire_sent)
  also have "\<dots> = (advance now st)\<lparr>sent := xs\<rparr>"
    by (simp add: advance_def Let_def)
  finally show ?thesis by simp
qed

lemma step_sent:
  "step P (st\<lparr>sent := xs\<rparr>) e =
     (step P st e)\<lparr>sent := xs @ drop (length (sent st)) (sent (step P st e))\<rparr>"
proof (cases e)
  case (Message conn m)
  then show ?thesis using onMessage_sent by simp
next
  case (PaymentRequired reqs uuid)
  then show ?thesis using onPaymentRequired_sent by simp
next
  case (CallToolSettles k outcome)
  then show ?thesis using callTool_settled_sent by simp
next
  case (ListToolsSettles k outcome)
  then show ?thesis using listTools_settled_sent by simp
next
  case (Advance now)
  then show ?thesis using advance_sent by simp
qed

lemma step_sent_prefix: "take (length (sent st)) (sent (step P st e)) = sent st"
proof -
  have "step P (st\<lparr>sent := sent st\<rparr>) e =
     (step P st e)\<lparr>sent := sent st @ drop (length (sent st)) (sent (step P st e))\<rparr>"
    by (rule step_sent)
  then have "sent (step P st e) = sent st @ drop (length (sent st)) (sent (step P st e))"
    by (metis agent.select_convs(8) agent.surjective agent.update_convs(8))
  then show ?thesis
    by (metis append_eq_conv_conj)
qed

lemma run_sent:
  "run P es (st\<lparr>sent := xs\<rparr>) =
     (run P es st)\<lparr>sent := xs @ drop (length (sent st)) (sent (run P es st))\<rparr>
   \<and> take (length (sent st)) (sent (run P es st)) = sent st"
proof (induction es arbitrary: st xs)
  case Nil
  show ?case by (simp add: run_def)
next
  case (Cons e es)
  let ?s1 = "step P st e"
  let ?n1 = "drop (length (sent st)) (sent ?s1)"
  have s1: "sent ?s1 = sent st @ ?n1"
    using step_sent_prefix [of st P e] by (metis append_take_drop_id)
  have a: "run P (e # es) (st\<lparr>sent := xs\<rparr>) = run P es (?s1\<lparr>sent := xs @ ?n1\<rparr>)"
    by (simp add: run_def step_sent)
  have b: "run P (e # es) st = run P es ?s1"
    by (simp add: run_def)
  from Cons.IH [where st = ?s1 and xs = "xs @ ?n1"]
  have ih1: "run P es (?s1\<lparr>sent := xs @ ?n1\<rparr>) =
      (run P es ?s1)\<lparr>sent := (xs @ ?n1) @ drop (length (sent ?s1)) (sent (run P es ?s1))\<rparr>"
    and ih2: "take (length (sent ?s1)) (sent (run P es ?s1)) = sent ?s1"
    by simp_all
  have c: "sent (run P es ?s1) = sent ?s1 @ drop (length (sent ?s1)) (sent (run P es ?s1))"
    using ih2 by (metis append_take_drop_id)
  have len: "length (sent ?s1) = length (sent st) + length ?n1"
    using s1 by (metis length_append)
  have d: "drop (length (sent st)) (sent (run P es ?s1)) =
      ?n1 @ drop (length (sent ?s1)) (sent (run P es ?s1))"
  proof -
    have "drop (length (sent st)) (sent (run P es ?s1)) =
        drop (length (sent st)) (sent st @ ?n1 @ drop (length (sent ?s1)) (sent (run P es ?s1)))"
      using c s1 by (metis append.assoc)
    then show ?thesis by simp
  qed
  have e: "take (length (sent st)) (sent (run P es ?s1)) = sent st"
  proof -
    have "take (length (sent st)) (sent (run P es ?s1)) =
        take (length (sent st)) (sent st @ ?n1 @ drop (length (sent ?s1)) (sent (run P es ?s1)))"
      using c s1 by (metis append.assoc)
    then show ?thesis by simp
  qed
  show ?case
    unfolding a b ih1 d using e by simp
qed

text \<open>
  C8: a message that \<open>JSON.parse\<close> rejects gets exactly one reply, the error
  "Failed to parse message", on its connection, and nothing else changes.
  The session stays usable: whatever happens afterwards (\<open>es\<close>), the agent
  ends in the state it would have reached without the message, with that
  one reply added to what it sent.
\<close>

theorem unparseable_message_error_reply:
  assumes "JSON_parse s = None"
  shows "onMessage JSON_parse conn (Text s) st = send conn (ErrorMsg ''Failed to parse message'') st
       \<and> run JSON_parse es (onMessage JSON_parse conn (Text s) st) =
           (run JSON_parse es st)\<lparr>sent := sent st @ (conn, ErrorMsg ''Failed to parse message'') #
              drop (length (sent st)) (sent (run JSON_parse es st))\<rparr>"
proof -
  have a: "onMessage JSON_parse conn (Text s) st = send conn (ErrorMsg ''Failed to parse message'') st"
    using assms by (simp add: onMessage_def try_body_def)
  have "run JSON_parse es (st\<lparr>sent := sent st @ [(conn, ErrorMsg ''Failed to parse message'')]\<rparr>) =
      (run JSON_parse es st)\<lparr>sent := (sent st @ [(conn, ErrorMsg ''Failed to parse message'')]) @
         drop (length (sent st)) (sent (run JSON_parse es st))\<rparr>"
    using run_sent by blast
  then show ?thesis
    unfolding a by (simp add: send_def)
qed

text \<open>
  An instance: \<open>not json\<close> is answered by the error, and the \<open>list_tools\<close>
  request that follows is taken up as usual.
\<close>

theorem unparseable_message_error_reply_witness:
  "onMessage example_parse 0 (Text ''not json'') ready
     = send 0 (ErrorMsg ''Failed to parse message'') ready
   \<and> sent (run example_parse [Message 0 (Text ''{\"type\":\"list_tools\"}'')]
        (onMessage example_parse 0 (Text ''not json'') ready))
     = [(0, ErrorMsg ''Failed to parse message'')]
   \<and> awaiting (run example_parse [Message 0 (Text ''{\"type\":\"list_tools\"}'')]
        (onMessage example_parse 0 (Text ''not json'') ready))
     = [ListToolsWait 0]"
proof -
  have h: "example_parse ''not json'' = None" by (simp add: example_parse_def)
  have r: "run example_parse [Message 0 (Text ''{\"type\":\"list_tools\"}'')] ready
      = ready\<lparr>awaiting := [ListToolsWait 0]\<rparr>"
    by (simp add: run_def onMessage_def try_body_def example_parse_def ready_def initial_def)
  note t = unparseable_message_error_reply [where JSON_parse = example_parse and s = "''not json''"
      and conn = 0 and st = ready and es = "[Message 0 (Text ''{\"type\":\"list_tools\"}'')]", OF h]
  from t have a: "onMessage example_parse 0 (Text ''not json'') ready
      = send 0 (ErrorMsg ''Failed to parse message'') ready"
    by (rule conjunct1)
  from t have b: "run example_parse [Message 0 (Text ''{\"type\":\"list_tools\"}'')]
        (onMessage example_parse 0 (Text ''not json'') ready) =
      (run example_parse [Message 0 (Text ''{\"type\":\"list_tools\"}'')] ready)
        \<lparr>sent := sent ready @ (0, ErrorMsg ''Failed to parse message'') #
           drop (length (sent ready))
             (sent (run example_parse [Message 0 (Text ''{\"type\":\"list_tools\"}'')] ready))\<rparr>"
    by (rule conjunct2)
  have e: "sent ready = []" by (simp add: ready_def initial_def)
  show ?thesis
  proof (intro conjI)
    show "onMessage example_parse 0 (Text ''not json'') ready
      = send 0 (ErrorMsg ''Failed to parse message'') ready"
      by (rule a)
    show "sent (run example_parse [Message 0 (Text ''{\"type\":\"list_tools\"}'')]
        (onMessage example_parse 0 (Text ''not json'') ready))
      = [(0, ErrorMsg ''Failed to parse message'')]"
      unfolding b r by (simp add: e)
    show "awaiting (run example_parse [Message 0 (Text ''{\"type\":\"list_tools\"}'')]
        (onMessage example_parse 0 (Text ''not json'') ready))
      = [ListToolsWait 0]"
      unfolding b r by simp
  qed
qed

section \<open>Resolving twice\<close>

subsection \<open>Settled promises stay settled\<close>

lemma resolve_keeps_settled:
  assumes "promises st ! p = Some b"
  shows "promises (resolve q r st) ! p = Some b"
proof (cases "q = p")
  case True
  with assms show ?thesis by (simp add: resolve_def)
next
  case False
  with assms show ?thesis by (simp add: resolve_def)
qed

lemma optional_call_keeps_settled:
  assumes "optional_call key res st = Inr st'" and "promises st ! p = Some b"
  shows "promises st' ! p = Some b" and "length (promises st') = length (promises st)"
  using assms
  by (auto simp: optional_call_def resolve_keeps_settled split: option.splits inherited.splits)

lemma onMessage_keeps_settled:
  assumes "promises st ! p = Some b"
  shows "promises (onMessage P conn m st) ! p = Some b
       \<and> length (promises (onMessage P conn m st)) = length (promises st)"
proof (cases "resolution_of P m")
  case None
  with assms show ?thesis by (simp add: onMessage_other)
next
  case (Some a)
  then have r: "resolution_of P m = Some (fst a, snd a)" by simp
  show ?thesis
  proof (cases "optional_call (fst a) (snd a) st")
    case (Inl e)
    with assms show ?thesis by (simp add: onMessage_resolution [OF r])
  next
    case (Inr st')
    with assms optional_call_keeps_settled [OF Inr assms] show ?thesis
      by (simp add: onMessage_resolution [OF r])
  qed
qed

lemma timeout_callback_keeps_settled:
  assumes "promises st ! p = Some b"
  shows "promises (timeout_callback c q st) ! p = Some b"
    and "length (promises (timeout_callback c q st)) = length (promises st)"
  using assms by (simp_all add: timeout_callback_def resolve_keeps_settled)

lemma foldl_fire_keeps_settled:
  assumes "promises st ! p = Some b"
  shows "promises (foldl fire st ts) ! p = Some b
       \<and> length (promises (foldl fire st ts)) = length (promises st)"
  using assms
  by (induction ts arbitrary: st) (simp_all add: fire_def timeout_callback_keeps_settled)

lemma step_keeps_settled:
  assumes "p < length (promises st)" and "promises st ! p = Some b"
  shows "p < length (promises (step P st e)) \<and> promises (step P st e) ! p = Some b"
proof (cases e)
  case (Message conn m)
  with assms onMessage_keeps_settled [OF assms(2), of P conn m] show ?thesis by simp
next
  case (PaymentRequired reqs uuid)
  with assms show ?thesis by (simp add: onPaymentRequired_def Let_def nth_append)
next
  case (CallToolSettles k outcome)
  with assms show ?thesis
    by (simp add: callTool_settled_def Let_def split: suspended.splits settled.splits)
next
  case (ListToolsSettles k outcome)
  with assms show ?thesis
    by (simp add: listTools_settled_def Let_def split: suspended.splits settled.splits)
next
  case (Advance now)
  have "promises (st\<lparr>clock := c, timers := ts\<rparr>) ! p = Some b" for c ts
    using assms by simp
  from foldl_fire_keeps_settled [OF this] assms show ?thesis
    using Advance by (simp add: advance_def Let_def)
qed

lemma run_keeps_settled:
  assumes "p < length (promises st)" and "promises st ! p = Some b"
  shows "p < length (promises (run P es st)) \<and> promises (run P es st) ! p = Some b"
  using assms unfolding run_def
proof (induction es arbitrary: st)
  case Nil
  then show ?case by simp
next
  case (Cons e es)
  from step_keeps_settled [OF Cons.prems, of P e] Cons.IH [of "step P st e"]
  show ?case by simp
qed

text \<open>A key that is absent stays absent unless the id is drawn again.\<close>

lemma onMessage_keeps_absent:
  "confirmations st k = None \<Longrightarrow> confirmations (onMessage P conn m st) k = None"
proof (cases "resolution_of P m")
  case None
  then show "confirmations st k = None \<Longrightarrow> ?thesis" by (simp add: onMessage_other)
next
  case (Some a)
  obtain key res where "a = (key, res)" by (cases a)
  with Some have r: "resolution_of P m = Some (key, res)" by simp
  show "confirmations st k = None \<Longrightarrow> ?thesis"
    by (auto simp: onMessage_resolution [OF r] dest: optional_call_fields split: sum.splits)
qed

lemma timeout_callback_keeps_absent:
  "confirmations st k = None \<Longrightarrow> confirmations (timeout_callback cid p st) k = None"
  by (simp add: timeout_callback_def)

lemma foldl_fire_keeps_absent:
  "confirmations st k = None \<Longrightarrow> confirmations (foldl fire st ts) k = None"
  by (induction ts arbitrary: st) (simp_all add: fire_def timeout_callback_keeps_absent)

lemma step_keeps_absent:
  assumes "confirmations st k = None" and "draws e \<noteq> Some k"
  shows "confirmations (step P st e) k = None"
proof (cases e)
  case (Message conn m)
  with assms show ?thesis by (simp add: onMessage_keeps_absent)
next
  case (PaymentRequired reqs uuid)
  with assms show ?thesis by (simp add: onPaymentRequired_def draws_def Let_def)
next
  case (CallToolSettles k' outcome)
  with assms show ?thesis
    by (auto simp: callTool_settled_def Let_def split: suspended.splits settled.splits)
next
  case (ListToolsSettles k' outcome)
  with assms show ?thesis
    by (auto simp: listTools_settled_def Let_def split: suspended.splits settled.splits)
next
  case (Advance now)
  with assms show ?thesis
    by (simp add: advance_def Let_def foldl_fire_keeps_absent)
qed

lemma run_keeps_absent:
  assumes "confirmations st k = None" and "list_all (\<lambda>e. draws e \<noteq> Some k) es"
  shows "confirmations (run P es st) k = None"
  using assms unfolding run_def
  by (induction es arbitrary: st) (simp_all add: step_keeps_absent)

lemma attempt_removes:
  assumes "Object_prototype cid = None" and "is_attempt P cid a"
  shows "confirmations (attempt P cid p a st) cid = None"
proof (cases a)
  case (ByMessage conn m)
  with assms(2) obtain res where r: "resolution_of P m = Some (cid, res)"
    by (auto simp: is_attempt_def)
  show ?thesis
    using assms(1) ByMessage
    by (auto simp: attempt_def onMessage_resolution [OF r] optional_call_def
        split: sum.splits option.splits)
next
  case ByTimeout
  with assms(1) show ?thesis
    by (simp add: attempt_def timeout_callback_def has_confirmation_def)
qed

lemma attempt_absent_noop:
  assumes "Object_prototype cid = None" and "is_attempt P cid a" and "confirmations st cid = None"
  shows "attempt P cid p a st = st"
proof (cases a)
  case (ByMessage conn m)
  with assms(2) obtain res where r: "resolution_of P m = Some (cid, res)"
    by (auto simp: is_attempt_def)
  show ?thesis
    using assms(1,3) ByMessage
    by (simp add: attempt_def onMessage_resolution [OF r] optional_call_absent delete_absent)
next
  case ByTimeout
  with assms(1,3) show ?thesis
    by (simp add: attempt_def timeout_callback_def has_confirmation_def)
qed

text \<open>
  C2, as stated, fails when the id is drawn again: the first confirmation
  \<open>deadbeef\<close> is confirmed, and a second confirmation draws \<open>deadbeef\<close>
  while the timer of the first, which is never cleared, is still armed.
  The timeout of the first confirmation, a second resolution attempt for
  its id, is then no no-op: it removes the table entry of the second
  confirmation. A \<open>cancel\<close> for the id is none either: it settles the
  second promise.
\<close>

theorem redrawn_id_second_attempt:
  "promises (run example_parse
      [PaymentRequired [] uuid_a,
       Message 0 (Text ''{\"type\":\"confirm\",\"confirmationId\":\"deadbeef\"}''),
       PaymentRequired [] uuid_b] ready) = [Some True, None]
   \<and> confirmations (run example_parse
      [PaymentRequired [] uuid_a,
       Message 0 (Text ''{\"type\":\"confirm\",\"confirmationId\":\"deadbeef\"}''),
       PaymentRequired [] uuid_b] ready) ''deadbeef'' = Some 1
   \<and> confirmations (attempt example_parse ''deadbeef'' 0 ByTimeout (run example_parse
      [PaymentRequired [] uuid_a,
       Message 0 (Text ''{\"type\":\"confirm\",\"confirmationId\":\"deadbeef\"}''),
       PaymentRequired [] uuid_b] ready)) ''deadbeef'' = None
   \<and> promises (attempt example_parse ''deadbeef'' 0
        (ByMessage 0 (Text ''{\"type\":\"cancel\",\"confirmationId\":\"deadbeef\"}''))
        (run example_parse
      [PaymentRequired [] uuid_a,
       Message 0 (Text ''{\"type\":\"confirm\",\"confirmationId\":\"deadbeef\"}''),
       PaymentRequired [] uuid_b] ready)) = [Some True, Some False]"
proof -
  have s: "run example_parse
      [PaymentRequired [] uuid_a,
       Message 0 (Text ''{\"type\":\"confirm\",\"confirmationId\":\"deadbeef\"}''),
       PaymentRequired [] uuid_b] ready
    = \<lparr>confirmations = [''deadbeef'' \<mapsto> 1], x402Client = True, promises = [Some True, None],
      timers = [(60000, ''deadbeef'', 0), (60000, ''deadbeef'', 1)], awaiting = [], clock = 0,
      broadcasts = [\<lparr>confirmationId = ''deadbeef'', requirements = [], timestamp = 0\<rparr>,
                    \<lparr>confirmationId = ''deadbeef'', requirements = [], timestamp = 0\<rparr>],
      sent = []\<rparr>"
    by (simp add: run_def onMessage_resolution [OF example_resolutions(1)] optional_call_def
        resolve_def delete_confirmation_def onPaymentRequired_def Let_def ready_def initial_def
        uuid_a_def uuid_b_def)
  show ?thesis
    unfolding s
    by (simp add: attempt_def timeout_callback_def has_confirmation_def resolve_def
        delete_confirmation_def onMessage_resolution [OF example_resolutions(2)] optional_call_def)
qed

text \<open>
  C2, amended: as long as the id is not drawn again for a new confirmation,
  at most one resolution takes effect. Once a resolution has been attempted
  (by a \<open>confirm\<close> or \<open>cancel\<close> message for the id, or by the timer),
  every later attempt for the same id, after any events \<open>es\<close> in between
  that do not draw the id again, is a no-op: it leaves the whole agent as it
  is, so it throws nothing, sends no error and settles nothing. The id is
  any key that is not the name of a property inherited from
  \<open>Object.prototype\<close>, as every id cut from a UUID is
  (\<open>generated_id_not_inherited\<close>). And in every case, also when the id is
  drawn again, a recorded outcome never changes: a promise that is settled
  keeps its value whatever happens later.
\<close>

theorem second_resolution_is_noop:
  assumes "Object_prototype cid = None"
    and "is_attempt JSON_parse cid first" and "is_attempt JSON_parse cid second"
    and "list_all (\<lambda>e. draws e \<noteq> Some cid) es"
  shows "attempt JSON_parse cid p' second (run JSON_parse es (attempt JSON_parse cid p first st))
       = run JSON_parse es (attempt JSON_parse cid p first st)
       \<and> (\<forall>q b later. q < length (promises st) \<and> promises st ! q = Some b \<longrightarrow>
             promises (run JSON_parse later st) ! q = Some b)"
proof -
  have "confirmations (attempt JSON_parse cid p first st) cid = None"
    using assms(1,2) by (rule attempt_removes)
  then have "confirmations (run JSON_parse es (attempt JSON_parse cid p first st)) cid = None"
    using assms(4) by (rule run_keeps_absent)
  with assms(1,3)
  have "attempt JSON_parse cid p' second (run JSON_parse es (attempt JSON_parse cid p first st))
       = run JSON_parse es (attempt JSON_parse cid p first st)"
    by (rule attempt_absent_noop)
  moreover have "promises (run JSON_parse later st) ! q = Some b"
    if "q < length (promises st)" and "promises st ! q = Some b" for q b later
    using run_keeps_settled [OF that] by simp
  ultimately show ?thesis by blast
qed

text \<open>
  An instance: the pending confirmation \<open>deadbeef\<close> is confirmed, a
  \<open>list_tools\<close> request arrives, then the timer fires and finds nothing to
  do; the promise stays settled to \<open>true\<close>.
\<close>

theorem second_resolution_is_noop_witness:
  "attempt example_parse ''deadbeef'' 0 ByTimeout
     (run example_parse [Message 1 (Text ''{\"type\":\"list_tools\"}'')]
        (attempt example_parse ''deadbeef'' 0
           (ByMessage 0 (Text ''{\"type\":\"confirm\",\"confirmationId\":\"deadbeef\"}''))
           one_pending))
   = run example_parse [Message 1 (Text ''{\"type\":\"list_tools\"}'')]
        (attempt example_parse ''deadbeef'' 0
           (ByMessage 0 (Text ''{\"type\":\"confirm\",\"confirmationId\":\"deadbeef\"}''))
           one_pending)
   \<and> promises (attempt example_parse ''deadbeef'' 0
           (ByMessage 0 (Text ''{\"type\":\"confirm\",\"confirmationId\":\"deadbeef\"}''))
           one_pending) = [Some True]"
proof -
  have h1: "Object_prototype ''deadbeef'' = None"
    by (rule deadbeef_not_inherited)
  have h2: "is_attempt example_parse ''deadbeef''
      (ByMessage 0 (Text ''{\"type\":\"confirm\",\"confirmationId\":\"deadbeef\"}''))"
    by (simp add: is_attempt_def example_resolutions)
  have h3: "is_attempt example_parse ''deadbeef'' ByTimeout"
    by (simp add: is_attempt_def)
  have h4: "list_all (\<lambda>e. draws e \<noteq> Some ''deadbeef'')
      [Message 1 (Text ''{\"type\":\"list_tools\"}'')]"
    by (simp add: draws_def)
  have "promises (attempt example_parse ''deadbeef'' 0
           (ByMessage 0 (Text ''{\"type\":\"confirm\",\"confirmationId\":\"deadbeef\"}''))
           one_pending) = [Some True]"
    by (simp add: attempt_def onMessage_resolution [OF example_resolutions(1)] optional_call_def
        example_states resolve_def)
  moreover from second_resolution_is_noop [OF h1 h2 h3 h4, of 0 0 one_pending]
  have "attempt example_parse ''deadbeef'' 0 ByTimeout
     (run example_parse [Message 1 (Text ''{\"type\":\"list_tools\"}'')]
        (attempt example_parse ''deadbeef'' 0
           (ByMessage 0 (Text ''{\"type\":\"confirm\",\"confirmationId\":\"deadbeef\"}''))
           one_pending))
   = run example_parse [Message 1 (Text ''{\"type\":\"list_tools\"}'')]
        (attempt example_parse ''deadbeef'' 0
           (ByMessage 0 (Text ''{\"type\":\"confirm\",\"confirmationId\":\"deadbeef\"}''))
           one_pending)"
    by (rule conjunct1)
  ultimately show ?thesis by simp
qed

section \<open>Unknown ids\<close>

text \<open>
  C4: a \<open>confirm\<close> message whose id is \<open>__proto__\<close> names no pending
  confirmation, but the read \<open>this.confirmations["__proto__"]\<close> yields
  \<open>Object.prototype\<close>, the optional call throws a TypeError, and the outer
  \<open>catch\<close> answers with the error "Failed to parse message": the message
  is not ignored silently.
\<close>

theorem inherited_key_gets_error_reply:
  "onMessage example_parse 0 (Text ''{\"type\":\"confirm\",\"confirmationId\":\"__proto__\"}'')
     one_pending
   = send 0 (ErrorMsg ''Failed to parse message'') one_pending"
  by (simp add: onMessage_resolution [OF example_resolutions(3)] optional_call_def
      Object_prototype_def example_states)

text \<open>
  The same happens when the id does not convert to a property key: an
  object with an own \<open>toString\<close> property makes the conversion throw.
\<close>

lemma unconvertible_id_gets_error_reply:
  "onMessage example_parse 0
     (Text ''{\"type\":\"confirm\",\"confirmationId\":{\"toString\":1}}'') one_pending
   = send 0 (ErrorMsg ''Failed to parse message'') one_pending"
  by (simp add: onMessage_def try_body_def resolve_case_def ToPropertyKey_def example_parse_def)

section \<open>Replies\<close>












section \<open>The timeout\<close>

subsection \<open>Every reachable state is well formed\<close>

lemma well_formed_initial: "well_formed initial"
  by (simp add: well_formed_def initial_def)








subsection \<open>A pending confirmation is left alone by everything that does not name its id\<close>

lemma core_resolve:
  assumes "core cid p st" and "q \<noteq> p"
  shows "core cid p (resolve q r st)"
  using assms by (simp add: core_def resolve_def)

lemma core_delete:
  assumes "core cid p st" and "k \<noteq> cid"
  shows "core cid p (delete_confirmation k st)"
  using assms by (simp add: core_def)

lemma core_send: "core cid p (send conn r st) = core cid p st"
  by (simp add: core_def)

lemma core_timeout_callback:
  assumes "core cid p st" and "c \<noteq> cid" and "q \<noteq> p"
  shows "core cid p (timeout_callback c q st)"
  using assms by (simp add: timeout_callback_def core_resolve core_delete)

lemma core_foldl_fire:
  assumes "core cid p st" and "list_all (\<lambda>t. fst (snd t) \<noteq> cid \<and> snd (snd t) \<noteq> p) ts"
  shows "core cid p (foldl fire st ts)"
  using assms
  by (induction ts arbitrary: st) (simp_all add: fire_def core_timeout_callback)

lemma core_onMessage:
  assumes "core cid p st" and "leaves_pending P cid due (Message conn m)"
  shows "core cid p (onMessage P conn m st)"
proof (cases "resolution_of P m")
  case None
  with assms(1) show ?thesis by (simp add: core_def onMessage_other)
next
  case (Some a)
  then have r: "resolution_of P m = Some (fst a, snd a)" by simp
  from assms(2) Some have ne: "fst a \<noteq> cid" by (simp add: leaves_pending_def)
  have "core cid p (delete_confirmation (fst a) st')"
    if "optional_call (fst a) (snd a) st = Inr st'" for st'
  proof (cases "confirmations st (fst a)")
    case None
    with that have "st' = st"
      by (auto simp: optional_call_def split: option.splits inherited.splits)
    with assms(1) ne show ?thesis by (simp add: core_delete)
  next
    case (Some q)
    with that have st': "st' = resolve q (snd a) st" by (simp add: optional_call_def)
    from Some ne assms(1) have "q \<noteq> p" by (auto simp: core_def)
    with assms(1) ne st' show ?thesis by (simp add: core_resolve core_delete)
  qed
  with assms(1) show ?thesis
    by (simp add: onMessage_resolution [OF r] core_send split: sum.splits)
qed

lemma onMessage_timers_clock:
  "timers (onMessage P conn m st) = timers st \<and> clock (onMessage P conn m st) = clock st"
proof (cases "resolution_of P m")
  case None
  then show ?thesis by (simp add: onMessage_other)
next
  case (Some a)
  then have r: "resolution_of P m = Some (fst a, snd a)" by simp
  show ?thesis
    by (auto simp: onMessage_resolution [OF r] dest: optional_call_fields split: sum.splits)
qed

lemma own_timer_filter:
  assumes "own_timer cid p due ts" and "Q (due, cid, p)"
  shows "own_timer cid p due (filter Q ts)"
proof -
  have "filter (\<lambda>t. fst (snd t) = cid) (filter Q ts) = filter Q (filter (\<lambda>t. fst (snd t) = cid) ts)"
    by (induction ts) simp_all
  with assms show ?thesis
    by (simp add: own_timer_def list_all_iff)
qed

lemma own_timer_others:
  assumes "own_timer cid p due ts" and "t \<in> set ts" and "t \<noteq> (due, cid, p)"
  shows "fst (snd t) \<noteq> cid \<and> snd (snd t) \<noteq> p"
proof -
  have "fst (snd t) \<noteq> cid"
  proof
    assume "fst (snd t) = cid"
    with assms(2) have "t \<in> set (filter (\<lambda>t. fst (snd t) = cid) ts)" by simp
    with assms(1,3) show False by (simp add: own_timer_def)
  qed
  moreover from assms(1,2) have "snd (snd t) = p \<longrightarrow> fst (snd t) = cid"
    by (simp add: own_timer_def list_all_iff)
  ultimately show ?thesis by blast
qed

lemma foldl_fire_timers_clock:
  "timers (foldl fire s ts) = timers s \<and> clock (foldl fire s ts) = clock s"
  by (induction ts arbitrary: s) (simp_all add: fire_def timeout_callback_def)

lemma pending_advance:
  assumes "pending cid p due st" and "now < due"
  shows "pending cid p due (advance now st)"
proof -
  let ?t = "max now (clock st)"
  let ?b = "st\<lparr>clock := ?t, timers := filter (\<lambda>x. \<not> is_due ?t x) (timers st)\<rparr>"
  let ?D = "filter (is_due ?t) (timers st)"
  from assms have t: "?t < due" and c: "core cid p st" and o: "own_timer cid p due (timers st)"
    by (auto simp: pending_def)
  have adv: "advance now st = foldl fire ?b ?D"
    by (simp add: advance_def Let_def)
  have nd: "\<not> is_due ?t (due, cid, p)"
    using t by (auto simp: is_due_def max_def split: if_splits)
  have "list_all (\<lambda>t. fst (snd t) \<noteq> cid \<and> snd (snd t) \<noteq> p) ?D"
    unfolding list_all_iff
  proof
    fix x assume "x \<in> set ?D"
    then have "x \<in> set (timers st)" and "is_due ?t x" by simp_all
    with nd have "x \<noteq> (due, cid, p)" by auto
    with o \<open>x \<in> set (timers st)\<close> show "fst (snd x) \<noteq> cid \<and> snd (snd x) \<noteq> p"
      by (rule own_timer_others)
  qed
  moreover have "core cid p ?b" using c by (simp add: core_def)
  ultimately have "core cid p (foldl fire ?b ?D)" by (rule core_foldl_fire [rotated])
  moreover have "timers (foldl fire ?b ?D) = timers ?b" and "clock (foldl fire ?b ?D) = clock ?b"
    by (simp_all add: foldl_fire_timers_clock)
  moreover have "own_timer cid p due (filter (\<lambda>x. \<not> is_due ?t x) (timers st))"
    using o nd by (rule own_timer_filter)
  ultimately show ?thesis
    using t unfolding adv by (simp add: pending_def)
qed

lemma pending_onPaymentRequired:
  assumes "pending cid p due st" and "take 8 uuid \<noteq> cid"
  shows "pending cid p due (snd (onPaymentRequired reqs uuid st))"
proof -
  from assms(1) have c: "core cid p st" and t: "clock st < due"
    and o: "own_timer cid p due (timers st)"
    by (simp_all add: pending_def)
  from c have lt: "p < length (promises st)" by (simp add: core_def)
  have "core cid p (snd (onPaymentRequired reqs uuid st))"
    using c assms(2) lt by (auto simp: core_def onPaymentRequired_def Let_def nth_append)
  moreover have "own_timer cid p due (timers (snd (onPaymentRequired reqs uuid st)))"
    using o assms(2) lt by (simp add: own_timer_def onPaymentRequired_def Let_def)
  moreover have "clock (snd (onPaymentRequired reqs uuid st)) = clock st"
    by (simp add: onPaymentRequired_def Let_def)
  ultimately show ?thesis using t by (simp add: pending_def)
qed

lemma pending_step:
  assumes "pending cid p due st" and "leaves_pending P cid due e"
  shows "pending cid p due (step P st e)"
proof (cases e)
  case (Message conn m)
  from assms(1) have "core cid p st" by (simp add: pending_def)
  then have "core cid p (onMessage P conn m st)"
    using assms(2) unfolding Message by (rule core_onMessage)
  with assms(1) Message show ?thesis
    by (simp add: pending_def onMessage_timers_clock)
next
  case (PaymentRequired reqs uuid)
  with assms show ?thesis
    by (simp add: leaves_pending_def pending_onPaymentRequired)
next
  case (CallToolSettles k outcome)
  have "callTool_settled k outcome st = st
      \<or> (\<exists>r conn. callTool_settled k outcome st = send conn r (st\<lparr>awaiting := remove_nth k (awaiting st)\<rparr>))"
    by (auto simp: callTool_settled_def Let_def split: suspended.splits settled.splits)
  with assms(1) CallToolSettles show ?thesis
    by (auto simp: pending_def core_def)
next
  case (ListToolsSettles k outcome)
  have "listTools_settled k outcome st = st
      \<or> (\<exists>r conn. listTools_settled k outcome st = send conn r (st\<lparr>awaiting := remove_nth k (awaiting st)\<rparr>))"
    by (auto simp: listTools_settled_def Let_def split: suspended.splits settled.splits)
  with assms(1) ListToolsSettles show ?thesis
    by (auto simp: pending_def core_def)
next
  case (Advance now)
  with assms show ?thesis
    by (simp add: leaves_pending_def pending_advance)
qed

lemma pending_run:
  assumes "pending cid p due st" and "list_all (leaves_pending P cid due) es"
  shows "pending cid p due (run P es st)"
  using assms unfolding run_def
  by (induction es arbitrary: st) (simp_all add: pending_step)

lemma pending_created:
  assumes "well_formed st" and "list_all (\<lambda>t. fst (snd t) \<noteq> take 8 uuid) (timers st)"
  shows "pending (take 8 uuid) (length (promises st)) (clock st + 60000)
           (snd (onPaymentRequired reqs uuid st))"
proof -
  let ?cid = "take 8 uuid" and ?p = "length (promises st)"
  from assms(1) have w1: "confirmations st k \<noteq> Some ?p" for k
    by (auto simp: well_formed_def)
  from assms(1) have w2: "list_all (\<lambda>t. snd (snd t) \<noteq> ?p) (timers st)"
    by (auto simp: well_formed_def list_all_iff)
  have "core ?cid ?p (snd (onPaymentRequired reqs uuid st))"
    using w1 by (simp add: core_def onPaymentRequired_def Let_def)
  moreover have "filter (\<lambda>t. fst (snd t) = ?cid) (timers st) = []"
    using assms(2) by (simp add: list_all_iff filter_empty_conv)
  then have "own_timer ?cid ?p (clock st + 60000) (timers (snd (onPaymentRequired reqs uuid st)))"
    using w2 by (simp add: own_timer_def onPaymentRequired_def Let_def list_all_iff)
  ultimately show ?thesis
    by (simp add: pending_def onPaymentRequired_def Let_def)
qed

subsection \<open>The timer settles a pending confirmation\<close>

lemma timeout_callback_pending:
  assumes "core cid p st"
  shows "promises (timeout_callback cid p st) ! p = Some False"
    and "confirmations (timeout_callback cid p st) cid = None"
    and "length (promises (timeout_callback cid p st)) = length (promises st)"
  using assms
  by (simp_all add: core_def timeout_callback_def has_confirmation_def resolve_def)

lemma foldl_fire_settles:
  assumes "core cid p st" and "own_timer cid p due ts"
  shows "promises (foldl fire st ts) ! p = Some False
       \<and> confirmations (foldl fire st ts) cid = None
       \<and> p < length (promises (foldl fire st ts))"
  using assms
proof (induction ts arbitrary: st)
  case Nil
  then show ?case by (simp add: own_timer_def)
next
  case (Cons t ts)
  show ?case
  proof (cases "fst (snd t) = cid")
    case True
    with Cons.prems(2) have t: "t = (due, cid, p)"
      by (simp add: own_timer_def)
    from Cons.prems(1) have lt: "p < length (promises st)" by (simp add: core_def)
    let ?s = "fire st t"
    have a: "promises ?s ! p = Some False" and b: "confirmations ?s cid = None"
      and c: "length (promises ?s) = length (promises st)"
      using timeout_callback_pending [OF Cons.prems(1)] by (simp_all add: fire_def t)
    from foldl_fire_keeps_settled [OF a, of ts] foldl_fire_keeps_absent [OF b, of ts] c lt
    show ?thesis by simp
  next
    case False
    with Cons.prems(2) have o: "own_timer cid p due ts" and q: "snd (snd t) \<noteq> p"
      by (auto simp: own_timer_def)
    from Cons.prems(1) False q have "core cid p (fire st t)"
      by (simp add: fire_def core_timeout_callback)
    from Cons.IH [OF this o] show ?thesis by simp
  qed
qed

lemma advance_settles:
  assumes "pending cid p due st" and "due \<le> now"
  shows "promises (advance now st) ! p = Some False
       \<and> confirmations (advance now st) cid = None
       \<and> p < length (promises (advance now st))
       \<and> list_all (\<lambda>t. fst (snd t) \<noteq> cid) (timers (advance now st))"
proof -
  let ?t = "max now (clock st)"
  let ?b = "st\<lparr>clock := ?t, timers := filter (\<lambda>x. \<not> is_due ?t x) (timers st)\<rparr>"
  let ?D = "filter (is_due ?t) (timers st)"
  from assms(1) have c: "core cid p st" and o: "own_timer cid p due (timers st)"
    by (simp_all add: pending_def)
  have adv: "advance now st = foldl fire ?b ?D"
    by (simp add: advance_def Let_def)
  have d: "is_due ?t (due, cid, p)"
    using assms(2) by (simp add: is_due_def max_def)
  have "core cid p ?b" using c by (simp add: core_def)
  moreover have "own_timer cid p due ?D" using o d by (rule own_timer_filter)
  ultimately have s: "promises (foldl fire ?b ?D) ! p = Some False
       \<and> confirmations (foldl fire ?b ?D) cid = None
       \<and> p < length (promises (foldl fire ?b ?D))"
    by (rule foldl_fire_settles)
  have "list_all (\<lambda>t. fst (snd t) \<noteq> cid) (filter (\<lambda>x. \<not> is_due ?t x) (timers st))"
    unfolding list_all_iff
  proof
    fix x assume x: "x \<in> set (filter (\<lambda>x. \<not> is_due ?t x) (timers st))"
    with d have "x \<noteq> (due, cid, p)" by auto
    with o x show "fst (snd x) \<noteq> cid"
      using own_timer_others [of cid p due "timers st" x] by simp
  qed
  then have "list_all (\<lambda>t. fst (snd t) \<noteq> cid) (timers (foldl fire ?b ?D))"
    by (simp add: foldl_fire_timers_clock)
  with s show ?thesis unfolding adv by simp
qed

lemma cancel_is_timeout:
  assumes "core cid p st" and "resolution_of P m = Some (cid, False)"
  shows "onMessage P conn m st = timeout_callback cid p st"
proof -
  from assms(1) have c: "confirmations st cid = Some p" by (simp add: core_def)
  have "delete_confirmation cid (resolve p False st) = resolve p False (delete_confirmation cid st)"
    by (simp add: resolve_def delete_confirmation_def)
  with c show ?thesis
    by (simp add: onMessage_resolution [OF assms(2)] optional_call_def timeout_callback_def
        has_confirmation_def)
qed

text \<open>
  C3, as stated, fails when two confirmations share an id (the first eight
  characters of two different UUIDs): the first one's timer removes the
  table entry, which by then holds the second one's resolver, and settles
  only the first promise; the second one's timer then finds no entry. After
  more than 60 seconds the second promise is still not settled, and no
  timer is left to settle it.
\<close>

theorem colliding_timeout_never_settles:
  "promises (run example_parse
      [PaymentRequired [] uuid_a, Advance 1000, PaymentRequired [] uuid_b, Advance 70000]
      initial) = [Some False, None]
   \<and> timers (run example_parse
      [PaymentRequired [] uuid_a, Advance 1000, PaymentRequired [] uuid_b, Advance 70000]
      initial) = []
   \<and> confirmations (run example_parse
      [PaymentRequired [] uuid_a, Advance 1000, PaymentRequired [] uuid_b, Advance 70000]
      initial) ''deadbeef'' = None"
  by (simp add: run_def advance_def is_due_def fire_def Let_def initial_def onPaymentRequired_def
      timeout_callback_def has_confirmation_def resolve_def delete_confirmation_def
      Object_prototype_def uuid_a_def uuid_b_def)

text \<open>
  C3, amended: let a confirmation be created in a well-formed state in which
  no armed timer closes over its id, and let it be left unresolved by the
  events \<open>es\<close> that follow (no \<open>confirm\<close> or \<open>cancel\<close> for its id, the id
  not drawn again, the clock below creation time + 60000). Then it is still
  pending after \<open>es\<close>; once the clock reaches creation time + 60000 its
  promise is settled to \<open>false\<close> and its table entry is gone; no armed timer
  closes over the id any more; its timer's callback does to the pending
  state exactly what a \<open>cancel\<close> message for the id does; and whatever
  happens later, the promise stays settled to \<open>false\<close>.
\<close>

theorem timeout_settles_false:
  assumes "well_formed st"
    and "list_all (\<lambda>t. fst (snd t) \<noteq> take 8 uuid) (timers st)"
    and "list_all (leaves_pending JSON_parse (take 8 uuid) (clock st + 60000)) es"
    and "clock st + 60000 \<le> now"
  shows "(let p = fst (onPaymentRequired reqs uuid st);
              st1 = snd (onPaymentRequired reqs uuid st);
              st2 = run JSON_parse es st1;
              st3 = advance now st2
          in promises st2 ! p = None \<and> confirmations st2 (take 8 uuid) = Some p
           \<and> promises st3 ! p = Some False \<and> confirmations st3 (take 8 uuid) = None
           \<and> list_all (\<lambda>t. fst (snd t) \<noteq> take 8 uuid) (timers st3)
           \<and> (\<forall>conn m. resolution_of JSON_parse m = Some (take 8 uuid, False) \<longrightarrow>
                 onMessage JSON_parse conn m st2 = timeout_callback (take 8 uuid) p st2)
           \<and> (\<forall>later. promises (run JSON_parse later st3) ! p = Some False))"
proof -
  let ?cid = "take 8 uuid" and ?p = "length (promises st)" and ?due = "clock st + 60000"
  let ?st1 = "snd (onPaymentRequired reqs uuid st)"
  let ?st2 = "run JSON_parse es ?st1"
  let ?st3 = "advance now ?st2"
  have p: "fst (onPaymentRequired reqs uuid st) = ?p"
    by (simp add: onPaymentRequired_def Let_def)
  have "pending ?cid ?p ?due ?st1"
    using assms(1,2) by (rule pending_created)
  then have p2: "pending ?cid ?p ?due ?st2"
    using assms(3) by (rule pending_run)
  then have c2: "core ?cid ?p ?st2" by (simp add: pending_def)
  from advance_settles [OF p2 assms(4)]
  have s3: "promises ?st3 ! ?p = Some False" "confirmations ?st3 ?cid = None"
    "?p < length (promises ?st3)" "list_all (\<lambda>t. fst (snd t) \<noteq> ?cid) (timers ?st3)"
    by simp_all
  have "promises (run JSON_parse later ?st3) ! ?p = Some False" for later
    using run_keeps_settled [OF s3(3) s3(1)] by simp
  moreover have "onMessage JSON_parse conn m ?st2 = timeout_callback ?cid ?p ?st2"
    if "resolution_of JSON_parse m = Some (?cid, False)" for conn m
    using c2 that by (rule cancel_is_timeout)
  ultimately show ?thesis
    using c2 s3 unfolding Let_def p by (simp add: core_def)
qed

text \<open>
  An instance: a confirmation is created at time 0, another one with a
  different id and a \<open>list_tools\<close> request follow, and the clock passes
  30000 and then 60000.
\<close>

theorem timeout_settles_false_witness:
  "promises (advance 60000 (run example_parse
       [PaymentRequired [] uuid_c, Message 0 (Text ''{\"type\":\"list_tools\"}''), Advance 30000]
       (snd (onPaymentRequired [] uuid_a initial))))
     ! fst (onPaymentRequired [] uuid_a initial) = Some False
   \<and> confirmations (advance 60000 (run example_parse
       [PaymentRequired [] uuid_c, Message 0 (Text ''{\"type\":\"list_tools\"}''), Advance 30000]
       (snd (onPaymentRequired [] uuid_a initial)))) (take 8 uuid_a) = None"
proof -
  have h1: "well_formed initial" by (rule well_formed_initial)
  have h2: "list_all (\<lambda>t. fst (snd t) \<noteq> take 8 uuid_a) (timers initial)"
    by (simp add: initial_def)
  have h3: "list_all (leaves_pending example_parse (take 8 uuid_a) (clock initial + 60000))
      [PaymentRequired [] uuid_c, Message 0 (Text ''{\"type\":\"list_tools\"}''), Advance 30000]"
    by (simp add: leaves_pending_def example_resolutions uuid_a_def uuid_c_def initial_def)
  have h4: "clock initial + 60000 \<le> 60000" by (simp add: initial_def)
  from timeout_settles_false [OF h1 h2 h3 h4, of "[]"] show ?thesis
    unfolding Let_def by blast
qed

section \<open>Two pending confirmations\<close>











section \<open>The wallet check\<close>

lemma checkWallet_never_rejects: "\<exists>v. checkWallet fetch rpcUrl address = Fulfilled v"
  by (simp add: checkWallet_def split: sum.splits)

text \<open>
  C7: for every address, when the backend call fails (no response, a
  response that is not \<open>ok\<close>, a body that is not JSON, or a body without an
  \<open>exists\<close> field), \<open>checkWallet\<close> returns \<open>false\<close> and does not reject,
  and the \<open>check_wallet\<close> tool returns the text of
  \<open>{exists: false, address}\<close> with no \<open>isError\<close>.
\<close>

theorem checkWallet_degrades_to_false:
  assumes "backend_error (fetch (rpcUrl @ ''/wallet/'' @ address @ ''/exists''))"
  shows "checkWallet fetch rpcUrl address = Fulfilled (JBool False)
       \<and> check_wallet JSON_stringify fetch rpcUrl address =
           \<lparr>content = [TextContent (JSON_stringify
              (JObj [(''exists'', JBool False), (''address'', JStr address)]))],
            isError = None\<rparr>"
proof -
  have "checkWallet fetch rpcUrl address = Fulfilled (JBool False)"
    using assms
    by (auto simp: backend_error_def checkWallet_def checkWallet_try_def nullish_coalesce_def
        split: fetched.splits option.splits sum.splits if_splits)
  then show ?thesis by (simp add: check_wallet_def)
qed

text \<open>An instance: the backend answers 404.\<close>

theorem checkWallet_degrades_to_false_witness:
  "checkWallet not_found ''https://rpc.example'' ''0xabc'' = Fulfilled (JBool False)
   \<and> check_wallet example_stringify not_found ''https://rpc.example'' ''0xabc'' =
       \<lparr>content = [TextContent (example_stringify
          (JObj [(''exists'', JBool False), (''address'', JStr ''0xabc'')]))],
        isError = None\<rparr>"
proof -
  have "backend_error (not_found (''https://rpc.example'' @ ''/wallet/'' @ ''0xabc'' @ ''/exists''))"
    by (simp add: backend_error_def not_found_def)
  then show ?thesis by (rule checkWallet_degrades_to_false)
qed

section \<open>The pricing listing\<close>

lemma usd_examples:
  "usd ''$0.001'' = Some 0.001" "usd ''$0.0005'' = Some 0.0005" "usd ''$0.01'' = Some 0.01"
  "usd ''$0.005'' = Some 0.005" "usd ''$0.002'' = Some 0.002" "usd ''free'' = None"
  by (simp_all add: usd_def decimal_def is_digit_def Let_def)

text \<open>
  C9: the names of the \<open>/pricing\<close> listing are exactly the names \<open>init\<close>
  registers, no name occurs twice on either side, and for every registered
  tool the listed price is \<open>free\<close> if and only if the tool was registered
  without a price, and otherwise is a label that denotes the price given to
  \<open>paidTool\<close>.
\<close>

theorem pricing_agrees_with_registry:
  "set (map name init) = set (map fst pricing_tools)
   \<and> distinct (map name init) \<and> distinct (map fst pricing_tools)
   \<and> list_all agrees init"
proof -
  have n: "map name init = [''check_wallet'', ''get_wallet'', ''get_balance'',
      ''send_transaction'', ''get_analytics'', ''get_transaction_history'']"
    by (simp add: init_def tool_def paidTool_def)
  have l: "map fst pricing_tools = [''check_wallet'', ''get_wallet'', ''get_balance'',
      ''get_transaction_history'', ''get_analytics'', ''send_transaction'']"
    by (simp add: pricing_tools_def)
  have "set (map name init) = set (map fst pricing_tools)"
    unfolding n l by (simp add: insert_commute)
  moreover have "distinct (map name init)" unfolding n by simp
  moreover have "distinct (map fst pricing_tools)" unfolding l by simp
  moreover have "list_all agrees init"
    by (simp add: init_def pricing_tools_def tool_def paidTool_def agrees_def price_label_def
        usd_examples)
  ultimately show ?thesis by simp
qed

text \<open>An instance: \<open>get_balance\<close>, registered at 0.0005, is listed as \<open>$0.0005\<close>.\<close>

theorem pricing_agrees_with_registry_witness:
  "agrees (paidTool ''get_balance'' ''Get wallet balance on Circular Protocol'' 0.0005)"
  using pricing_agrees_with_registry by (simp add: init_def)

end
